theory Spec2Isabelle
  imports Complex_Main
begin

section \<open>The Electron main process of screen-blur-focus\<close>

text \<open>
  The development embeds \<^verbatim>\<open>electron-main.js\<close>: the module-level variables become the
  fields of a state record, each callback becomes a function from state to state, and what
  the host supplies on demand (\<^verbatim>\<open>screen.getAllDisplays()\<close>,
  \<^verbatim>\<open>screen.getCursorScreenPoint()\<close>) is an argument of the callback that reads it.
\<close>

subsection \<open>Data\<close>

text \<open>
  Electron's \<^verbatim>\<open>Point\<close> is \<^verbatim>\<open>{x, y}\<close> and its \<^verbatim>\<open>Rectangle\<close> is
  \<^verbatim>\<open>{x, y, width, height}\<close>; both hold whole numbers of pixels, on which the
  comparisons and the additions of the source are those of the integers.
\<close>

record Point =
  x :: int
  y :: int

record Rectangle = Point +
  width :: int
  height :: int

text \<open>Of a \<^verbatim>\<open>Display\<close> the program reads the field \<^verbatim>\<open>bounds\<close> only.\<close>

record Display =
  bounds :: Rectangle

text \<open>
  The opacity is a JavaScript number written as a decimal literal; the model keeps the
  decimal as a rational. The literals that occur (0.3, 0.5, 0.7, 0.9) denote the doubles
  nearest to these decimals, which compare with 0, with 1 and with each other as the
  decimals do.
\<close>

type_synonym opacity = rat

text \<open>
  A \<^verbatim>\<open>BrowserWindow\<close>: the options of the constructor call in
  \<^verbatim>\<open>createOverlayWindow\<close>, what the three calls after it set, whether the window is
  shown, and the messages handed to \<^verbatim>\<open>webContents.send\<close>, oldest first.
\<close>

record BrowserWindow =
  winBounds :: Rectangle
  frame :: bool
  transparent :: bool
  alwaysOnTop :: bool
  skipTaskbar :: bool
  focusable :: bool
  nodeIntegration :: bool
  contextIsolation :: bool
  ignoreMouseEvents :: bool
  loadedFile :: "string option"
  topLevel :: "string option"
  visible :: bool
  sent :: "(string \<times> bool \<times> opacity) list"

text \<open>What the host display subsystem answers when asked.\<close>

record screen =
  getAllDisplays :: "Display list"
  getCursorScreenPoint :: Point

text \<open>The calls to the process lifecycle primitives of \<^verbatim>\<open>app\<close>, in the order made.\<close>

datatype lifecycle_call = Relaunch | Exit | Quit

datatype phase = Running | Terminated

text \<open>
  The module-level variables (\<^verbatim>\<open>mainWindow\<close> and \<^verbatim>\<open>tray\<close> are never read), and
  the state of the process itself.
\<close>

record app_state =
  overlayWindows :: "BrowserWindow list"
  currentMouseScreen :: nat
  blurEnabled :: bool
  blurOpacity :: opacity
  phase :: phase
  calls :: "lifecycle_call list"

subsection \<open>createOverlayWindow\<close>

text \<open>
  \<^verbatim>\<open>new BrowserWindow({...})\<close> with the options of lines 12 to 26. The option
  \<^verbatim>\<open>show\<close> is not given, and Electron's default for it is \<^verbatim>\<open>true\<close>: the window is
  shown when created.
\<close>

definition newBrowserWindow :: "Display \<Rightarrow> BrowserWindow" where
  "newBrowserWindow display =
     \<lparr> winBounds = \<lparr> x = x (bounds display), y = y (bounds display),
                      width = width (bounds display), height = height (bounds display) \<rparr>,
       frame = False,
       transparent = True,
       alwaysOnTop = True,
       skipTaskbar = True,
       focusable = False,
       nodeIntegration = True,
       contextIsolation = False,
       ignoreMouseEvents = False,
       loadedFile = None,
       topLevel = None,
       visible = True,
       sent = [] \<rparr>"

definition setIgnoreMouseEvents :: "bool \<Rightarrow> BrowserWindow \<Rightarrow> BrowserWindow" where
  "setIgnoreMouseEvents b w = w\<lparr>ignoreMouseEvents := b\<rparr>"

definition loadFile :: "string \<Rightarrow> BrowserWindow \<Rightarrow> BrowserWindow" where
  "loadFile f w = w\<lparr>loadedFile := Some f\<rparr>"

definition setAlwaysOnTop :: "bool \<Rightarrow> string \<Rightarrow> BrowserWindow \<Rightarrow> BrowserWindow" where
  "setAlwaysOnTop b level w = w\<lparr>alwaysOnTop := b, topLevel := Some level\<rparr>"

definition createOverlayWindow :: "Display \<Rightarrow> BrowserWindow" where
  "createOverlayWindow display =
     setAlwaysOnTop True ''screen-saver''
       (loadFile ''overlay.html''
         (setIgnoreMouseEvents True (newBrowserWindow display)))"

subsection \<open>updateOverlays\<close>

text \<open>The condition of the \<^verbatim>\<open>if\<close> of lines 43 to 46.\<close>

definition inBounds :: "Point \<Rightarrow> Rectangle \<Rightarrow> bool" where
  "inBounds currentCursor b \<longleftrightarrow>
     x currentCursor \<ge> x b \<and>
     x currentCursor < x b + width b \<and>
     y currentCursor \<ge> y b \<and>
     y currentCursor < y b + height b"

text \<open>
  The \<^verbatim>\<open>displays.forEach\<close> of lines 41 to 49: the callback runs on every display, in
  order, with its index, and assigns \<^verbatim>\<open>mouseScreenIndex\<close> whenever the condition
  holds. The last argument is the current value of \<^verbatim>\<open>mouseScreenIndex\<close>.
\<close>

fun displaysForEach :: "Display list \<Rightarrow> Point \<Rightarrow> nat \<Rightarrow> nat \<Rightarrow> nat" where
  "displaysForEach [] currentCursor index m = m"
| "displaysForEach (display # rest) currentCursor index m =
     displaysForEach rest currentCursor (Suc index)
       (if inBounds currentCursor (bounds display) then index else m)"

text \<open>Lines 40 to 49: \<^verbatim>\<open>let mouseScreenIndex = 0\<close>, then the loop.\<close>

definition mouseScreenIndex :: "Display list \<Rightarrow> Point \<Rightarrow> nat" where
  "mouseScreenIndex displays currentCursor = displaysForEach displays currentCursor 0 0"

definition send :: "string \<Rightarrow> bool \<Rightarrow> opacity \<Rightarrow> BrowserWindow \<Rightarrow> BrowserWindow" where
  "send channel blurred op w = w\<lparr>sent := sent w @ [(channel, blurred, op)]\<rparr>"

definition showWindow :: "BrowserWindow \<Rightarrow> BrowserWindow" where
  "showWindow w = w\<lparr>visible := True\<rparr>"

text \<open>The callback of the \<^verbatim>\<open>overlayWindows.forEach\<close> of lines 52 to 59.\<close>

definition updateOverlay :: "bool \<Rightarrow> opacity \<Rightarrow> nat \<Rightarrow> BrowserWindow \<Rightarrow> nat \<Rightarrow> BrowserWindow" where
  "updateOverlay enabled op m overlay index =
     (if enabled \<and> index \<noteq> m
      then showWindow (send ''set-blur'' True op overlay)
      else send ''set-blur'' False op overlay)"

fun overlaysForEach :: "bool \<Rightarrow> opacity \<Rightarrow> nat \<Rightarrow> BrowserWindow list \<Rightarrow> nat \<Rightarrow> BrowserWindow list" where
  "overlaysForEach enabled op m [] index = []"
| "overlaysForEach enabled op m (overlay # rest) index =
     updateOverlay enabled op m overlay index # overlaysForEach enabled op m rest (Suc index)"

definition updateOverlays :: "screen \<Rightarrow> app_state \<Rightarrow> app_state" where
  "updateOverlays scr s =
     (let displays = getAllDisplays scr;
          currentCursor = getCursorScreenPoint scr;
          m = mouseScreenIndex displays currentCursor
      in s\<lparr>overlayWindows :=
             overlaysForEach (blurEnabled s) (blurOpacity s) m (overlayWindows s) 0\<rparr>)"

subsection \<open>The tray menu and the process lifecycle\<close>

datatype intensity = Light | Medium | Strong | VeryStrong

text \<open>The four assignments of lines 79 to 82.\<close>

fun intensityOpacity :: "intensity \<Rightarrow> opacity" where
  "intensityOpacity Light = 3 / 10"
| "intensityOpacity Medium = 5 / 10"
| "intensityOpacity Strong = 7 / 10"
| "intensityOpacity VeryStrong = 9 / 10"

text \<open>The values these assignments can give.\<close>

definition opacityLevels :: "opacity set" where
  "opacityLevels = {3 / 10, 5 / 10, 7 / 10, 9 / 10}"

definition clickEnableBlur :: "bool \<Rightarrow> screen \<Rightarrow> app_state \<Rightarrow> app_state" where
  "clickEnableBlur checked scr s = updateOverlays scr (s\<lparr>blurEnabled := checked\<rparr>)"

definition clickIntensity :: "intensity \<Rightarrow> screen \<Rightarrow> app_state \<Rightarrow> app_state" where
  "clickIntensity l scr s = updateOverlays scr (s\<lparr>blurOpacity := intensityOpacity l\<rparr>)"

text \<open>
  \<^verbatim>\<open>app.relaunch()\<close> asks the host for a new instance once this one has exited;
  \<^verbatim>\<open>app.exit()\<close> ends the process at once, and \<^verbatim>\<open>app.quit()\<close> ends it after
  closing the windows.
\<close>

definition app_relaunch :: "app_state \<Rightarrow> app_state" where
  "app_relaunch s = s\<lparr>calls := calls s @ [Relaunch]\<rparr>"

definition app_exit :: "app_state \<Rightarrow> app_state" where
  "app_exit s = s\<lparr>calls := calls s @ [Exit], phase := Terminated\<rparr>"

definition app_quit :: "app_state \<Rightarrow> app_state" where
  "app_quit s = s\<lparr>calls := calls s @ [Quit], phase := Terminated\<rparr>"

text \<open>The handlers of lines 107 to 115 have the same body.\<close>

definition onDisplayAdded :: "app_state \<Rightarrow> app_state" where
  "onDisplayAdded s = app_exit (app_relaunch s)"

definition onDisplayRemoved :: "app_state \<Rightarrow> app_state" where
  "onDisplayRemoved s = app_exit (app_relaunch s)"

text \<open>
  What can happen to the running process: the interval timer fires, an entry of the tray
  menu is clicked (the checkbox entry passes its new \<^verbatim>\<open>checked\<close> value), or the host
  reports a display change. The callbacks that call \<^verbatim>\<open>updateOverlays\<close> carry what
  the host answers at that moment.
\<close>

datatype event =
    TimerTick screen
  | ClickEnableBlur bool screen
  | ClickIntensity intensity screen
  | ClickQuit
  | DisplayAdded
  | DisplayRemoved

fun handle :: "event \<Rightarrow> app_state \<Rightarrow> app_state" where
  "handle (TimerTick scr) s = updateOverlays scr s"
| "handle (ClickEnableBlur checked scr) s = clickEnableBlur checked scr s"
| "handle (ClickIntensity l scr) s = clickIntensity l scr s"
| "handle ClickQuit s = app_quit s"
| "handle DisplayAdded s = onDisplayAdded s"
| "handle DisplayRemoved s = onDisplayRemoved s"

text \<open>A process that has ended runs no callback.\<close>

definition step :: "event \<Rightarrow> app_state \<Rightarrow> app_state" where
  "step e s = (if phase s = Running then handle e s else s)"

fun run :: "event list \<Rightarrow> app_state \<Rightarrow> app_state" where
  "run [] s = s"
| "run (e # es) s = run es (step e s)"

subsection \<open>Startup\<close>

text \<open>Lines 4 to 9.\<close>

definition initial :: app_state where
  "initial =
     \<lparr> overlayWindows = [],
       currentMouseScreen = 0,
       blurEnabled = True,
       blurOpacity = 7 / 10,
       phase = Running,
       calls = [] \<rparr>"

text \<open>The \<^verbatim>\<open>displays.forEach\<close> of lines 96 to 99: one \<^verbatim>\<open>push\<close> per display.\<close>

fun createOverlays :: "Display list \<Rightarrow> app_state \<Rightarrow> app_state" where
  "createOverlays [] s = s"
| "createOverlays (display # rest) s =
     createOverlays rest (s\<lparr>overlayWindows := overlayWindows s @ [createOverlayWindow display]\<rparr>)"

definition whenReady :: "screen \<Rightarrow> app_state" where
  "whenReady scr = createOverlays (getAllDisplays scr) initial"

text \<open>
  The state the specification calls Restarting: the process has ended and has asked for a
  new instance.
\<close>

definition restarting :: "app_state \<Rightarrow> bool" where
  "restarting s \<longleftrightarrow> phase s = Terminated \<and> Relaunch \<in> set (calls s)"

subsection \<open>The focus resolver as the specification words it\<close>

text \<open>
  Section 4.1 of the specification: the index of the one monitor that contains the point;
  index 0 when none does; the lowest matching index when several do.
\<close>

definition spec_FocusResolver :: "Display list \<Rightarrow> Point \<Rightarrow> nat" where
  "spec_FocusResolver displays p =
     (case filter (\<lambda>i. inBounds p (bounds (displays ! i))) [0..<length displays] of
        [] \<Rightarrow> 0
      | i # _ \<Rightarrow> i)"

subsection \<open>Concrete inputs\<close>

text \<open>The two monitors of the specification's scenario A, side by side.\<close>

definition monitorA :: Display where
  "monitorA = \<lparr> bounds = \<lparr> x = 0, y = 0, width = 1920, height = 1080 \<rparr> \<rparr>"

definition monitorB :: Display where
  "monitorB = \<lparr> bounds = \<lparr> x = 1920, y = 0, width = 1920, height = 1080 \<rparr> \<rparr>"

text \<open>A mirrored pair: two displays with the same bounds.\<close>

definition mirrored :: "Display list" where
  "mirrored = [monitorA, monitorA]"

definition cursorOnA :: Point where
  "cursorOnA = \<lparr> x = 100, y = 100 \<rparr>"

definition cursorOnB :: Point where
  "cursorOnB = \<lparr> x = 2000, y = 100 \<rparr>"

definition cursorOutside :: Point where
  "cursorOutside = \<lparr> x = 100, y = 5000 \<rparr>"

definition screenA :: screen where
  "screenA = \<lparr> getAllDisplays = [monitorA, monitorB], getCursorScreenPoint = cursorOnA \<rparr>"

definition screenB :: screen where
  "screenB = \<lparr> getAllDisplays = [monitorA, monitorB], getCursorScreenPoint = cursorOnB \<rparr>"

definition screenOutside :: screen where
  "screenOutside = \<lparr> getAllDisplays = [monitorA, monitorB], getCursorScreenPoint = cursorOutside \<rparr>"

section \<open>Properties\<close>

subsection \<open>The loop over the displays\<close>

lemma displaysForEach_no_match:
  "\<forall>d \<in> set ds. \<not> inBounds c (bounds d) \<Longrightarrow> displaysForEach ds c n m = m"
  by (induction ds arbitrary: n m) simp_all

lemma displaysForEach_last_match:
  "k < length ds \<Longrightarrow> inBounds c (bounds (ds ! k)) \<Longrightarrow>
   \<forall>j. k < j \<and> j < length ds \<longrightarrow> \<not> inBounds c (bounds (ds ! j)) \<Longrightarrow>
   displaysForEach ds c n m = n + k"
proof (induction ds arbitrary: n m k)
  case Nil
  then show ?case by simp
next
  case (Cons d ds)
  show ?case
  proof (cases k)
    case 0
    have "\<forall>d' \<in> set ds. \<not> inBounds c (bounds d')"
    proof
      fix d' assume "d' \<in> set ds"
      then obtain j where j: "j < length ds" "ds ! j = d'"
        by (auto simp: in_set_conv_nth)
      with Cons.prems(3) 0 have "\<not> inBounds c (bounds ((d # ds) ! Suc j))"
        by (metis Suc_less_eq length_Cons zero_less_Suc)
      with j show "\<not> inBounds c (bounds d')" by simp
    qed
    then have "displaysForEach ds c (Suc n) n = n"
      by (rule displaysForEach_no_match)
    with 0 Cons.prems(2) show ?thesis by simp
  next
    case (Suc k')
    have a: "k' < length ds" using Cons.prems(1) Suc by simp
    have b: "inBounds c (bounds (ds ! k'))" using Cons.prems(2) Suc by simp
    have c': "\<forall>j. k' < j \<and> j < length ds \<longrightarrow> \<not> inBounds c (bounds (ds ! j))"
    proof (intro allI impI)
      fix j assume "k' < j \<and> j < length ds"
      then have "k < Suc j \<and> Suc j < length (d # ds)" using Suc by simp
      with Cons.prems(3) have "\<not> inBounds c (bounds ((d # ds) ! Suc j))" by blast
      then show "\<not> inBounds c (bounds (ds ! j))" by simp
    qed
    have "displaysForEach ds c (Suc n) (if inBounds c (bounds d) then n else m) = Suc n + k'"
      by (rule Cons.IH [OF a b c'])
    with Suc show ?thesis by simp
  qed
qed

lemma mouseScreenIndex_last_match:
  "k < length ds \<Longrightarrow> inBounds c (bounds (ds ! k)) \<Longrightarrow>
   \<forall>j. k < j \<and> j < length ds \<longrightarrow> \<not> inBounds c (bounds (ds ! j)) \<Longrightarrow>
   mouseScreenIndex ds c = k"
  using displaysForEach_last_match [of k ds c 0 0] by (simp add: mouseScreenIndex_def)

lemma mouseScreenIndex_no_match:
  "\<forall>i < length ds. \<not> inBounds c (bounds (ds ! i)) \<Longrightarrow> mouseScreenIndex ds c = 0"
  unfolding mouseScreenIndex_def
  by (rule displaysForEach_no_match) (auto simp: in_set_conv_nth)

subsection \<open>The loop over the overlay windows\<close>

lemma overlaysForEach_length:
  "length (overlaysForEach en op m ws n) = length ws"
  by (induction ws arbitrary: n) simp_all

lemma overlaysForEach_nth:
  "i < length ws \<Longrightarrow>
   overlaysForEach en op m ws n ! i = updateOverlay en op m (ws ! i) (n + i)"
proof (induction ws arbitrary: n i)
  case Nil
  then show ?case by simp
next
  case (Cons w ws)
  show ?case
  proof (cases i)
    case 0
    then show ?thesis by simp
  next
    case (Suc i')
    with Cons.prems have "i' < length ws" by simp
    then have "overlaysForEach en op m ws (Suc n) ! i' = updateOverlay en op m (ws ! i') (Suc n + i')"
      by (rule Cons.IH)
    with Suc show ?thesis by simp
  qed
qed

lemma updateOverlays_length:
  "length (overlayWindows (updateOverlays scr s)) = length (overlayWindows s)"
  by (simp add: updateOverlays_def overlaysForEach_length)

lemma updateOverlays_nth:
  "i < length (overlayWindows s) \<Longrightarrow>
   overlayWindows (updateOverlays scr s) ! i =
     updateOverlay (blurEnabled s) (blurOpacity s)
       (mouseScreenIndex (getAllDisplays scr) (getCursorScreenPoint scr))
       (overlayWindows s ! i) i"
  by (simp add: updateOverlays_def overlaysForEach_nth)

lemma updateOverlays_frame:
  "blurEnabled (updateOverlays scr s) = blurEnabled s"
  "blurOpacity (updateOverlays scr s) = blurOpacity s"
  "phase (updateOverlays scr s) = phase s"
  "calls (updateOverlays scr s) = calls s"
  by (simp_all add: updateOverlays_def)

lemma updateOverlay_sent:
  "sent (updateOverlay en op m w i) = sent w @ [(''set-blur'', en \<and> i \<noteq> m, op)]"
  by (simp add: updateOverlay_def send_def showWindow_def)

lemma updateOverlay_winBounds:
  "winBounds (updateOverlay en op m w i) = winBounds w"
  by (simp add: updateOverlay_def send_def showWindow_def)

lemma updateOverlay_visible:
  "visible (updateOverlay en op m w i) = (visible w \<or> (en \<and> i \<noteq> m))"
  by (auto simp add: updateOverlay_def send_def showWindow_def)

subsection \<open>Startup\<close>

lemma createOverlays_windows:
  "overlayWindows (createOverlays ds s) = overlayWindows s @ map createOverlayWindow ds"
  by (induction ds arbitrary: s) simp_all

lemma createOverlays_frame:
  "blurEnabled (createOverlays ds s) = blurEnabled s"
  "blurOpacity (createOverlays ds s) = blurOpacity s"
  "phase (createOverlays ds s) = phase s"
  "calls (createOverlays ds s) = calls s"
  by (induction ds arbitrary: s) simp_all

lemma whenReady_windows:
  "overlayWindows (whenReady scr) = map createOverlayWindow (getAllDisplays scr)"
  by (simp add: whenReady_def createOverlays_windows initial_def)

lemma whenReady_frame:
  "blurEnabled (whenReady scr) = True"
  "blurOpacity (whenReady scr) = 7 / 10"
  "phase (whenReady scr) = Running"
  "calls (whenReady scr) = []"
  by (simp_all add: whenReady_def createOverlays_frame initial_def)

lemma createOverlayWindow_winBounds:
  "winBounds (createOverlayWindow d) = bounds d"
  by (simp add: createOverlayWindow_def setAlwaysOnTop_def loadFile_def
      setIgnoreMouseEvents_def newBrowserWindow_def)

subsection \<open>What every callback preserves\<close>

lemma handle_length:
  "length (overlayWindows (handle e s)) = length (overlayWindows s)"
  by (cases e)
    (simp_all add: clickEnableBlur_def clickIntensity_def updateOverlays_length app_quit_def
      onDisplayAdded_def onDisplayRemoved_def app_exit_def app_relaunch_def)

lemma step_length:
  "length (overlayWindows (step e s)) = length (overlayWindows s)"
  by (simp add: step_def handle_length)

lemma run_length:
  "length (overlayWindows (run es s)) = length (overlayWindows s)"
  by (induction es arbitrary: s) (simp_all add: step_length)

lemma handle_winBounds:
  "i < length (overlayWindows s) \<Longrightarrow>
   winBounds (overlayWindows (handle e s) ! i) = winBounds (overlayWindows s ! i)"
  by (cases e)
    (simp_all add: clickEnableBlur_def clickIntensity_def updateOverlays_nth
      updateOverlay_winBounds app_quit_def onDisplayAdded_def onDisplayRemoved_def
      app_exit_def app_relaunch_def)

lemma step_winBounds:
  "i < length (overlayWindows s) \<Longrightarrow>
   winBounds (overlayWindows (step e s) ! i) = winBounds (overlayWindows s ! i)"
  by (simp add: step_def handle_winBounds)

lemma run_winBounds:
  "i < length (overlayWindows s) \<Longrightarrow>
   winBounds (overlayWindows (run es s) ! i) = winBounds (overlayWindows s ! i)"
proof (induction es arbitrary: s)
  case Nil
  then show ?case by simp
next
  case (Cons e es)
  from Cons.prems have "i < length (overlayWindows (step e s))"
    by (simp add: step_length)
  then have "winBounds (overlayWindows (run es (step e s)) ! i) =
             winBounds (overlayWindows (step e s) ! i)"
    by (rule Cons.IH)
  with Cons.prems show ?case by (simp add: step_winBounds)
qed

lemma handle_visible:
  "i < length (overlayWindows s) \<Longrightarrow> visible (overlayWindows s ! i) \<Longrightarrow>
   visible (overlayWindows (handle e s) ! i)"
  by (cases e)
    (simp_all add: clickEnableBlur_def clickIntensity_def updateOverlays_nth
      updateOverlay_visible app_quit_def onDisplayAdded_def onDisplayRemoved_def
      app_exit_def app_relaunch_def)

lemma step_visible:
  "i < length (overlayWindows s) \<Longrightarrow> visible (overlayWindows s ! i) \<Longrightarrow>
   visible (overlayWindows (step e s) ! i)"
  by (simp add: step_def handle_visible)

lemma run_visible:
  "i < length (overlayWindows s) \<Longrightarrow> visible (overlayWindows s ! i) \<Longrightarrow>
   visible (overlayWindows (run es s) ! i)"
proof (induction es arbitrary: s)
  case Nil
  then show ?case by simp
next
  case (Cons e es)
  have "i < length (overlayWindows (step e s))"
    using Cons.prems(1) by (simp add: step_length)
  moreover have "visible (overlayWindows (step e s) ! i)"
    using Cons.prems by (rule step_visible)
  ultimately have "visible (overlayWindows (run es (step e s)) ! i)"
    by (rule Cons.IH)
  then show ?case by simp
qed

lemma handle_opacity:
  "blurOpacity (handle e s) = (case e of ClickIntensity l scr \<Rightarrow> intensityOpacity l | _ \<Rightarrow> blurOpacity s)"
  by (cases e)
    (simp_all add: clickEnableBlur_def clickIntensity_def updateOverlays_frame app_quit_def
      onDisplayAdded_def onDisplayRemoved_def app_exit_def app_relaunch_def)

lemma handle_enabled:
  "blurEnabled (handle e s) = (case e of ClickEnableBlur checked scr \<Rightarrow> checked | _ \<Rightarrow> blurEnabled s)"
  by (cases e)
    (simp_all add: clickEnableBlur_def clickIntensity_def updateOverlays_frame app_quit_def
      onDisplayAdded_def onDisplayRemoved_def app_exit_def app_relaunch_def)

lemma intensityOpacity_levels:
  "intensityOpacity l \<in> opacityLevels"
  by (cases l) (simp_all add: opacityLevels_def)

lemma intensityOpacity_range:
  "0 \<le> intensityOpacity l \<and> intensityOpacity l \<le> 1"
  by (cases l) simp_all

lemma step_opacity_levels:
  "blurOpacity s \<in> opacityLevels \<Longrightarrow> blurOpacity (step e s) \<in> opacityLevels"
  by (simp add: step_def handle_opacity intensityOpacity_levels split: event.splits
      del: handle.simps)

lemma run_opacity_levels:
  "blurOpacity s \<in> opacityLevels \<Longrightarrow> blurOpacity (run es s) \<in> opacityLevels"
proof (induction es arbitrary: s)
  case Nil
  then show ?case by simp
next
  case (Cons e es)
  from Cons.prems have "blurOpacity (step e s) \<in> opacityLevels"
    by (rule step_opacity_levels)
  then have "blurOpacity (run es (step e s)) \<in> opacityLevels"
    by (rule Cons.IH)
  then show ?case by simp
qed

lemma step_opacity_range:
  "0 \<le> blurOpacity s \<and> blurOpacity s \<le> 1 \<Longrightarrow>
   0 \<le> blurOpacity (step e s) \<and> blurOpacity (step e s) \<le> 1"
  by (simp add: step_def handle_opacity intensityOpacity_range split: event.splits
      del: handle.simps)

lemma run_opacity_range:
  "0 \<le> blurOpacity s \<and> blurOpacity s \<le> 1 \<Longrightarrow>
   0 \<le> blurOpacity (run es s) \<and> blurOpacity (run es s) \<le> 1"
proof (induction es arbitrary: s)
  case Nil
  then show ?case by simp
next
  case (Cons e es)
  from Cons.prems have "0 \<le> blurOpacity (step e s) \<and> blurOpacity (step e s) \<le> 1"
    by (rule step_opacity_range)
  then have "0 \<le> blurOpacity (run es (step e s)) \<and> blurOpacity (run es (step e s)) \<le> 1"
    by (rule Cons.IH)
  then show ?case by simp
qed

lemma run_terminated:
  "phase s = Terminated \<Longrightarrow> run es s = s"
  by (induction es arbitrary: s) (simp_all add: step_def)

lemma mouseScreenIndex_greatest:
  assumes "i < length ds" and "inBounds c (bounds (ds ! i))"
  shows "mouseScreenIndex ds c < length ds \<and>
         inBounds c (bounds (ds ! mouseScreenIndex ds c)) \<and>
         (\<forall>k < length ds. inBounds c (bounds (ds ! k)) \<longrightarrow> k \<le> mouseScreenIndex ds c)"
proof -
  let ?M = "{k. k < length ds \<and> inBounds c (bounds (ds ! k))}"
  define g where "g = Max ?M"
  have fin: "finite ?M" by simp
  have ne: "?M \<noteq> {}" using assms by blast
  have "g \<in> ?M" unfolding g_def using fin ne by (rule Max_in)
  then have g1: "g < length ds" and g2: "inBounds c (bounds (ds ! g))" by simp_all
  have g3: "k \<le> g" if "k < length ds" "inBounds c (bounds (ds ! k))" for k
  proof -
    from that have "k \<in> ?M" by simp
    with fin show ?thesis unfolding g_def by (rule Max_ge)
  qed
  have "\<forall>j. g < j \<and> j < length ds \<longrightarrow> \<not> inBounds c (bounds (ds ! j))"
    using g3 by (metis not_less)
  with g1 g2 have "mouseScreenIndex ds c = g" by (rule mouseScreenIndex_last_match)
  with g1 g2 g3 show ?thesis by simp
qed

section \<open>The claims\<close>

text \<open>
  C1, as amended. When the cursor lies inside the bounds of more than one display, the
  focus resolution of \<^verbatim>\<open>updateOverlays\<close> returns the highest matching index (the last
  match wins, since the loop assigns on every match and never stops early): the result is
  the index of a display that contains the cursor, no display of a higher index contains
  it, and the result is above the lowest matching index. The resolution is a total
  function of the displays and the cursor: no input makes it raise.
\<close>

theorem C1_last_match_wins:
  assumes "i < j" and "j < length displays"
    and "inBounds c (bounds (displays ! i))"
    and "inBounds c (bounds (displays ! j))"
  shows "mouseScreenIndex displays c < length displays \<and>
         inBounds c (bounds (displays ! mouseScreenIndex displays c)) \<and>
         (\<forall>k < length displays. inBounds c (bounds (displays ! k)) \<longrightarrow>
            k \<le> mouseScreenIndex displays c) \<and>
         i < mouseScreenIndex displays c"
proof -
  note g = mouseScreenIndex_greatest [OF assms(2) assms(4)]
  from g assms(2) assms(4) have "j \<le> mouseScreenIndex displays c" by blast
  with assms(1) have "i < mouseScreenIndex displays c" by simp
  with g show ?thesis by blast
qed

theorem C1_last_match_wins_witness:
  "(0::nat) < 1 \<and> 1 < length mirrored \<and>
   inBounds cursorOnA (bounds (mirrored ! 0)) \<and>
   inBounds cursorOnA (bounds (mirrored ! 1)) \<and>
   mouseScreenIndex mirrored cursorOnA < length mirrored \<and>
   inBounds cursorOnA (bounds (mirrored ! mouseScreenIndex mirrored cursorOnA)) \<and>
   1 \<le> mouseScreenIndex mirrored cursorOnA \<and>
   0 < mouseScreenIndex mirrored cursorOnA"
proof -
  have h1: "(0::nat) < 1" by simp
  have h2: "1 < length mirrored" by (simp add: mirrored_def)
  have h3: "inBounds cursorOnA (bounds (mirrored ! 0))"
    by (simp add: mirrored_def monitorA_def cursorOnA_def inBounds_def)
  have h4: "inBounds cursorOnA (bounds (mirrored ! 1))"
    by (simp add: mirrored_def monitorA_def cursorOnA_def inBounds_def)
  from C1_last_match_wins [OF h1 h2 h3 h4] h1 h2 h3 h4 show ?thesis by blast
qed

text \<open>
  C1 as stated fails: on a mirrored pair of displays the cursor is inside both, the lowest
  matching index is 0, and the code returns 1.
\<close>

theorem C1_lowest_index_counterexample:
  "inBounds cursorOnA (bounds (mirrored ! 0)) \<and>
   inBounds cursorOnA (bounds (mirrored ! 1)) \<and>
   spec_FocusResolver mirrored cursorOnA = 0 \<and>
   mouseScreenIndex mirrored cursorOnA = 1"
  by (simp add: mirrored_def monitorA_def cursorOnA_def inBounds_def spec_FocusResolver_def
      mouseScreenIndex_def upt_rec)

text \<open>
  C2. On a tick, every overlay window is sent exactly one more \<^verbatim>\<open>set-blur\<close> message,
  and its boolean is \<open>enabled \<and> i \<noteq> focusedIndex\<close> for the window of index \<open>i\<close>; when
  blur is disabled the boolean is false whatever the focused display.
\<close>

theorem C2_blurred_is_enabled_and_unfocused:
  assumes "i < length (overlayWindows s)"
  shows "sent (overlayWindows (updateOverlays scr s) ! i) =
           sent (overlayWindows s ! i) @
             [(''set-blur'',
               blurEnabled s \<and> i \<noteq> mouseScreenIndex (getAllDisplays scr) (getCursorScreenPoint scr),
               blurOpacity s)] \<and>
         (\<not> blurEnabled s \<longrightarrow>
            fst (snd (last (sent (overlayWindows (updateOverlays scr s) ! i)))) = False)"
  using assms by (simp add: updateOverlays_nth updateOverlay_sent)

theorem C2_blurred_is_enabled_and_unfocused_witness:
  "(1::nat) < length (overlayWindows (whenReady screenA)) \<and>
   sent (overlayWindows (updateOverlays screenA (whenReady screenA)) ! 1) =
     [(''set-blur'', True, 7 / 10)] \<and>
   \<not> blurEnabled ((whenReady screenA)\<lparr>blurEnabled := False\<rparr>) \<and>
   fst (snd (last (sent (overlayWindows
     (updateOverlays screenA ((whenReady screenA)\<lparr>blurEnabled := False\<rparr>)) ! 1)))) = False"
proof -
  have h: "(1::nat) < length (overlayWindows (whenReady screenA))"
    by (simp add: whenReady_windows screenA_def)
  have h': "(1::nat) < length (overlayWindows ((whenReady screenA)\<lparr>blurEnabled := False\<rparr>))"
    using h by simp
  have m: "mouseScreenIndex (getAllDisplays screenA) (getCursorScreenPoint screenA) = 0"
    by (simp add: screenA_def mouseScreenIndex_def monitorA_def monitorB_def cursorOnA_def
        inBounds_def)
  have e: "sent (overlayWindows (whenReady screenA) ! 1) = []"
    by (simp add: whenReady_windows screenA_def createOverlayWindow_def setAlwaysOnTop_def
        loadFile_def setIgnoreMouseEvents_def newBrowserWindow_def)
  from C2_blurred_is_enabled_and_unfocused [OF h, of screenA]
    C2_blurred_is_enabled_and_unfocused [OF h', of screenA] h m e
  show ?thesis by (simp add: whenReady_frame)
qed

text \<open>
  C3. After the startup creation the program holds one overlay window per display, and the
  window of index \<open>i\<close> has the bounds of display \<open>i\<close>; no callback changes the number of
  windows or their bounds afterwards.
\<close>

theorem C3_one_overlay_per_display:
  "length (overlayWindows (whenReady scr)) = length (getAllDisplays scr) \<and>
   (\<forall>i < length (getAllDisplays scr).
      winBounds (overlayWindows (whenReady scr) ! i) = bounds (getAllDisplays scr ! i)) \<and>
   (\<forall>es. length (overlayWindows (run es (whenReady scr))) = length (getAllDisplays scr) \<and>
      (\<forall>i < length (getAllDisplays scr).
         winBounds (overlayWindows (run es (whenReady scr)) ! i) = bounds (getAllDisplays scr ! i)))"
  by (simp add: run_length run_winBounds whenReady_windows createOverlayWindow_winBounds)

theorem C3_one_overlay_per_display_witness:
  "(1::nat) < length (getAllDisplays screenA) \<and>
   length (overlayWindows (whenReady screenA)) = 2 \<and>
   winBounds (overlayWindows (whenReady screenA) ! 1) =
     \<lparr> x = 1920, y = 0, width = 1920, height = 1080 \<rparr> \<and>
   winBounds (overlayWindows (run [TimerTick screenB, DisplayAdded] (whenReady screenA)) ! 1) =
     \<lparr> x = 1920, y = 0, width = 1920, height = 1080 \<rparr>"
proof -
  have h: "(1::nat) < length (getAllDisplays screenA)"
    by (simp add: screenA_def)
  have b: "bounds (getAllDisplays screenA ! 1) = \<lparr> x = 1920, y = 0, width = 1920, height = 1080 \<rparr>"
    by (simp add: screenA_def monitorB_def)
  have l: "length (getAllDisplays screenA) = 2"
    by (simp add: screenA_def)
  note t = C3_one_overlay_per_display [of screenA]
  from t have a: "length (overlayWindows (whenReady screenA)) = length (getAllDisplays screenA)"
    by blast
  from t h have b1: "winBounds (overlayWindows (whenReady screenA) ! 1) =
      bounds (getAllDisplays screenA ! 1)"
    by blast
  from t h have c1: "winBounds (overlayWindows
      (run [TimerTick screenB, DisplayAdded] (whenReady screenA)) ! 1) =
      bounds (getAllDisplays screenA ! 1)"
    by blast
  from a l have a': "length (overlayWindows (whenReady screenA)) = 2" by (rule trans)
  from b1 b have b': "winBounds (overlayWindows (whenReady screenA) ! 1) =
      \<lparr> x = 1920, y = 0, width = 1920, height = 1080 \<rparr>"
    by (rule trans)
  from c1 b have c': "winBounds (overlayWindows
      (run [TimerTick screenB, DisplayAdded] (whenReady screenA)) ! 1) =
      \<lparr> x = 1920, y = 0, width = 1920, height = 1080 \<rparr>"
    by (rule trans)
  from h a' b' c' show ?thesis by blast
qed

text \<open>
  C4. A display-added or display-removed notification that reaches the running process
  makes it call \<^verbatim>\<open>app.relaunch()\<close> and then \<^verbatim>\<open>app.exit()\<close>, once each and in this
  order. The process has then ended: whatever is notified afterwards, it runs no callback,
  makes no further lifecycle call and is never running again.
\<close>

theorem C4_one_relaunch_then_exit:
  assumes "phase s = Running" and "e = DisplayAdded \<or> e = DisplayRemoved"
  shows "calls (step e s) = calls s @ [Relaunch, Exit] \<and>
         restarting (step e s) \<and>
         (\<forall>es. run es (step e s) = step e s \<and>
               phase (run es (step e s)) \<noteq> Running \<and>
               calls (run es (step e s)) = calls s @ [Relaunch, Exit])"
proof -
  from assms have c: "calls (step e s) = calls s @ [Relaunch, Exit]"
    by (auto simp add: step_def onDisplayAdded_def onDisplayRemoved_def app_exit_def
        app_relaunch_def)
  from assms have p: "phase (step e s) = Terminated"
    by (auto simp add: step_def onDisplayAdded_def onDisplayRemoved_def app_exit_def
        app_relaunch_def)
  from c p have r: "restarting (step e s)" by (simp add: restarting_def)
  from p have "run es (step e s) = step e s" for es by (rule run_terminated)
  with c p r show ?thesis by simp
qed

theorem C4_one_relaunch_then_exit_witness:
  "phase (whenReady screenA) = Running \<and>
   (DisplayRemoved = DisplayAdded \<or> DisplayRemoved = DisplayRemoved) \<and>
   calls (step DisplayRemoved (whenReady screenA)) = [Relaunch, Exit] \<and>
   restarting (step DisplayRemoved (whenReady screenA)) \<and>
   calls (run [DisplayRemoved, DisplayAdded, TimerTick screenB] (whenReady screenA)) =
     [Relaunch, Exit] \<and>
   phase (run [DisplayRemoved, DisplayAdded, TimerTick screenB] (whenReady screenA)) \<noteq> Running"
proof -
  have h1: "phase (whenReady screenA) = Running" by (simp add: whenReady_frame)
  have h2: "DisplayRemoved = DisplayAdded \<or> DisplayRemoved = DisplayRemoved" by simp
  have c0: "calls (whenReady screenA) = []" by (simp add: whenReady_frame)
  note t = C4_one_relaunch_then_exit [OF h1 h2]
  from t c0 have a: "calls (step DisplayRemoved (whenReady screenA)) = [Relaunch, Exit]"
    by simp
  from t have b: "restarting (step DisplayRemoved (whenReady screenA))" by blast
  from t have "calls (run [DisplayAdded, TimerTick screenB] (step DisplayRemoved (whenReady screenA))) =
      calls (whenReady screenA) @ [Relaunch, Exit]"
    by blast
  with c0 have c: "calls (run [DisplayRemoved, DisplayAdded, TimerTick screenB] (whenReady screenA)) =
      [Relaunch, Exit]"
    by simp
  from t have "phase (run [DisplayAdded, TimerTick screenB] (step DisplayRemoved (whenReady screenA)))
      \<noteq> Running"
    by blast
  then have d: "phase (run [DisplayRemoved, DisplayAdded, TimerTick screenB] (whenReady screenA))
      \<noteq> Running"
    by simp
  from h1 h2 a b c d show ?thesis by blast
qed

text \<open>
  C5. When the cursor lies inside the bounds of no display (also when there is no display
  at all), the focus resolution of \<^verbatim>\<open>updateOverlays\<close> returns index 0. The index is
  only ever compared with the index of each overlay window, never used to look one up, and
  the tick completes: every window is sent its message, computed from focused index 0.
\<close>

theorem C5_outside_every_display_is_index_0:
  assumes "\<forall>i < length (getAllDisplays scr).
             \<not> inBounds (getCursorScreenPoint scr) (bounds (getAllDisplays scr ! i))"
  shows "mouseScreenIndex (getAllDisplays scr) (getCursorScreenPoint scr) = 0 \<and>
         length (overlayWindows (updateOverlays scr s)) = length (overlayWindows s) \<and>
         (\<forall>i < length (overlayWindows s).
            sent (overlayWindows (updateOverlays scr s) ! i) =
              sent (overlayWindows s ! i) @ [(''set-blur'', blurEnabled s \<and> i \<noteq> 0, blurOpacity s)])"
proof -
  from assms have "mouseScreenIndex (getAllDisplays scr) (getCursorScreenPoint scr) = 0"
    by (rule mouseScreenIndex_no_match)
  then show ?thesis
    by (simp add: updateOverlays_length updateOverlays_nth updateOverlay_sent)
qed

theorem C5_outside_every_display_is_index_0_witness:
  "getAllDisplays screenOutside = [monitorA, monitorB] \<and>
   \<not> inBounds (getCursorScreenPoint screenOutside) (bounds monitorA) \<and>
   \<not> inBounds (getCursorScreenPoint screenOutside) (bounds monitorB) \<and>
   mouseScreenIndex (getAllDisplays screenOutside) (getCursorScreenPoint screenOutside) = 0 \<and>
   length (overlayWindows (updateOverlays screenOutside (whenReady screenOutside))) =
     length (overlayWindows (whenReady screenOutside))"
proof -
  have l: "length (getAllDisplays screenOutside) = Suc (Suc 0)"
    by (simp add: screenOutside_def)
  have h: "\<forall>i < length (getAllDisplays screenOutside).
      \<not> inBounds (getCursorScreenPoint screenOutside) (bounds (getAllDisplays screenOutside ! i))"
    unfolding l
    by (simp add: All_less_Suc screenOutside_def monitorA_def monitorB_def cursorOutside_def
        inBounds_def)
  have d: "getAllDisplays screenOutside = [monitorA, monitorB]"
    by (simp add: screenOutside_def)
  have a: "\<not> inBounds (getCursorScreenPoint screenOutside) (bounds monitorA)"
    by (simp add: screenOutside_def monitorA_def cursorOutside_def inBounds_def)
  have b: "\<not> inBounds (getCursorScreenPoint screenOutside) (bounds monitorB)"
    by (simp add: screenOutside_def monitorB_def cursorOutside_def inBounds_def)
  from C5_outside_every_display_is_index_0 [OF h, of "whenReady screenOutside"] d a b
  show ?thesis by blast
qed

text \<open>
  C6. A display contains the cursor when the cursor's \<open>x\<close> is in the half-open interval from
  the left edge (included) to the left edge plus the width (excluded), and likewise for
  \<open>y\<close>; and when exactly one display of the list contains the cursor (as is the case for a
  point inside one of several non-overlapping rectangles), the focus resolution returns
  the index of that display.
\<close>

theorem C6_half_open_containment_and_unique_match:
  assumes "i < length displays"
    and "inBounds c (bounds (displays ! i))"
    and "\<forall>j < length displays. j \<noteq> i \<longrightarrow> \<not> inBounds c (bounds (displays ! j))"
  shows "(\<forall>p b. inBounds p b \<longleftrightarrow>
            x p \<in> {x b ..< x b + width b} \<and> y p \<in> {y b ..< y b + height b}) \<and>
         mouseScreenIndex displays c = i"
proof -
  have "\<forall>j. i < j \<and> j < length displays \<longrightarrow> \<not> inBounds c (bounds (displays ! j))"
    using assms(3) by auto
  with assms(1) assms(2) have "mouseScreenIndex displays c = i"
    by (rule mouseScreenIndex_last_match)
  then show ?thesis by (auto simp add: inBounds_def)
qed

theorem C6_half_open_containment_and_unique_match_witness:
  "(1::nat) < length [monitorA, monitorB] \<and>
   inBounds cursorOnB (bounds ([monitorA, monitorB] ! 1)) \<and>
   \<not> inBounds cursorOnB (bounds ([monitorA, monitorB] ! 0)) \<and>
   mouseScreenIndex [monitorA, monitorB] cursorOnB = 1 \<and>
   inBounds \<lparr> x = 1920, y = 0 \<rparr> (bounds monitorB) \<and>
   \<not> inBounds \<lparr> x = 1920, y = 0 \<rparr> (bounds monitorA) \<and>
   \<not> inBounds \<lparr> x = 0, y = 1080 \<rparr> (bounds monitorA)"
proof -
  have h1: "(1::nat) < length [monitorA, monitorB]" by simp
  have h2: "inBounds cursorOnB (bounds ([monitorA, monitorB] ! 1))"
    by (simp add: monitorB_def cursorOnB_def inBounds_def)
  have h3: "\<forall>j < length [monitorA, monitorB]. j \<noteq> 1 \<longrightarrow>
      \<not> inBounds cursorOnB (bounds ([monitorA, monitorB] ! j))"
    by (simp add: All_less_Suc monitorA_def cursorOnB_def inBounds_def)
  note t = C6_half_open_containment_and_unique_match [OF h1 h2 h3]
  from t have m: "mouseScreenIndex [monitorA, monitorB] cursorOnB = 1" by blast
  from t have io: "inBounds p b \<longleftrightarrow>
      x p \<in> {x b ..< x b + width b} \<and> y p \<in> {y b ..< y b + height b}" for p b
    by blast
  have e1: "inBounds \<lparr> x = 1920, y = 0 \<rparr> (bounds monitorB)"
    by (simp add: io monitorB_def)
  have e2: "\<not> inBounds \<lparr> x = 1920, y = 0 \<rparr> (bounds monitorA)"
    by (simp add: io monitorA_def)
  have e3: "\<not> inBounds \<lparr> x = 0, y = 1080 \<rparr> (bounds monitorA)"
    by (simp add: io monitorA_def)
  have h0: "\<not> inBounds cursorOnB (bounds ([monitorA, monitorB] ! 0))"
    by (simp add: monitorA_def cursorOnB_def inBounds_def)
  from h1 h2 h0 m e1 e2 e3 show ?thesis by blast
qed

text \<open>
  C7. On a tick no overlay window is added or dropped, and every overlay window is sent
  one \<^verbatim>\<open>set-blur\<close> message that carries the current opacity, whatever its boolean: a
  window whose computed boolean is false is sent \<open>(False, opacity)\<close>.
\<close>

theorem C7_every_overlay_is_sent_the_opacity:
  "length (overlayWindows (updateOverlays scr s)) = length (overlayWindows s) \<and>
   (\<forall>i < length (overlayWindows s).
      (\<exists>blurred. sent (overlayWindows (updateOverlays scr s) ! i) =
         sent (overlayWindows s ! i) @ [(''set-blur'', blurred, blurOpacity s)]) \<and>
      (\<not> (blurEnabled s \<and>
           i \<noteq> mouseScreenIndex (getAllDisplays scr) (getCursorScreenPoint scr)) \<longrightarrow>
         sent (overlayWindows (updateOverlays scr s) ! i) =
           sent (overlayWindows s ! i) @ [(''set-blur'', False, blurOpacity s)]))"
  by (simp add: updateOverlays_length updateOverlays_nth updateOverlay_sent)

theorem C7_every_overlay_is_sent_the_opacity_witness:
  "(0::nat) < length (overlayWindows (whenReady screenA)) \<and>
   \<not> (blurEnabled (whenReady screenA) \<and>
      0 \<noteq> mouseScreenIndex (getAllDisplays screenA) (getCursorScreenPoint screenA)) \<and>
   length (overlayWindows (updateOverlays screenA (whenReady screenA))) = 2 \<and>
   sent (overlayWindows (updateOverlays screenA (whenReady screenA)) ! 0) =
     [(''set-blur'', False, 7 / 10)]"
proof -
  have l: "length (overlayWindows (whenReady screenA)) = 2"
    by (simp add: whenReady_windows screenA_def)
  then have h: "(0::nat) < length (overlayWindows (whenReady screenA))" by simp
  have m: "mouseScreenIndex (getAllDisplays screenA) (getCursorScreenPoint screenA) = 0"
    by (simp add: screenA_def mouseScreenIndex_def monitorA_def monitorB_def cursorOnA_def
        inBounds_def)
  then have n: "\<not> (blurEnabled (whenReady screenA) \<and>
      0 \<noteq> mouseScreenIndex (getAllDisplays screenA) (getCursorScreenPoint screenA))"
    by simp
  have e: "sent (overlayWindows (whenReady screenA) ! 0) = []"
    by (simp add: whenReady_windows screenA_def createOverlayWindow_def setAlwaysOnTop_def
        loadFile_def setIgnoreMouseEvents_def newBrowserWindow_def)
  have o: "blurOpacity (whenReady screenA) = 7 / 10" by (simp add: whenReady_frame)
  note t = C7_every_overlay_is_sent_the_opacity [of screenA "whenReady screenA"]
  from t l have a: "length (overlayWindows (updateOverlays screenA (whenReady screenA))) = 2"
    by simp
  from t h n have "sent (overlayWindows (updateOverlays screenA (whenReady screenA)) ! 0) =
      sent (overlayWindows (whenReady screenA) ! 0) @
        [(''set-blur'', False, blurOpacity (whenReady screenA))]"
    by blast
  with e o have b: "sent (overlayWindows (updateOverlays screenA (whenReady screenA)) ! 0) =
      [(''set-blur'', False, 7 / 10)]"
    by simp
  from h n a b show ?thesis by blast
qed

text \<open>
  C8. The opacity is in the interval from 0 to 1 when the program starts, after any
  intensity entry of the tray menu is clicked (from any state), and so in every state the
  program reaches; the checkbox entry sets \<^verbatim>\<open>blurEnabled\<close> and leaves the opacity as it
  was, an intensity entry sets the opacity and leaves \<^verbatim>\<open>blurEnabled\<close> as it was.
\<close>

theorem C8_opacity_in_unit_interval:
  "0 \<le> blurOpacity initial \<and> blurOpacity initial \<le> 1 \<and>
   (\<forall>l scr s. blurOpacity (clickIntensity l scr s) = intensityOpacity l \<and>
      0 \<le> blurOpacity (clickIntensity l scr s) \<and> blurOpacity (clickIntensity l scr s) \<le> 1) \<and>
   (\<forall>scr es. 0 \<le> blurOpacity (run es (whenReady scr)) \<and>
      blurOpacity (run es (whenReady scr)) \<le> 1) \<and>
   (\<forall>checked scr s. blurEnabled (clickEnableBlur checked scr s) = checked \<and>
      blurOpacity (clickEnableBlur checked scr s) = blurOpacity s) \<and>
   (\<forall>l scr s. blurEnabled (clickIntensity l scr s) = blurEnabled s)"
proof -
  have a: "0 \<le> blurOpacity initial \<and> blurOpacity initial \<le> 1"
    by (simp add: initial_def)
  have b: "blurOpacity (clickIntensity l scr s) = intensityOpacity l \<and>
      0 \<le> blurOpacity (clickIntensity l scr s) \<and> blurOpacity (clickIntensity l scr s) \<le> 1"
    for l scr s
    by (simp add: clickIntensity_def updateOverlays_frame intensityOpacity_range)
  have c: "0 \<le> blurOpacity (run es (whenReady scr)) \<and> blurOpacity (run es (whenReady scr)) \<le> 1"
    for scr es
    by (rule run_opacity_range) (simp add: whenReady_frame)
  have d: "blurEnabled (clickEnableBlur checked scr s) = checked \<and>
      blurOpacity (clickEnableBlur checked scr s) = blurOpacity s"
    for checked scr s
    by (simp add: clickEnableBlur_def updateOverlays_frame)
  have e: "blurEnabled (clickIntensity l scr s) = blurEnabled s" for l scr s
    by (simp add: clickIntensity_def updateOverlays_frame)
  from a b c d e show ?thesis by blast
qed

text \<open>
  C9. A tick shows an overlay window exactly when it sends it \<open>blurred = True\<close>, and hides
  none: the window is shown after the tick if and only if it was shown before or was sent
  true. So a window sent false keeps its visibility, and a window that is shown stays
  shown through every later callback.
\<close>

theorem C9_tick_never_hides:
  assumes "i < length (overlayWindows s)"
  shows "(visible (overlayWindows (updateOverlays scr s) ! i) \<longleftrightarrow>
            visible (overlayWindows s ! i) \<or>
            fst (snd (last (sent (overlayWindows (updateOverlays scr s) ! i))))) \<and>
         (fst (snd (last (sent (overlayWindows (updateOverlays scr s) ! i)))) = False \<longrightarrow>
            visible (overlayWindows (updateOverlays scr s) ! i) = visible (overlayWindows s ! i)) \<and>
         (visible (overlayWindows s ! i) \<longrightarrow>
            (\<forall>es. visible (overlayWindows (run es s) ! i)))"
  using assms
  by (auto simp add: updateOverlays_nth updateOverlay_sent updateOverlay_visible run_visible)

theorem C9_tick_never_hides_witness:
  "(0::nat) < length (overlayWindows (whenReady screenA)) \<and>
   fst (snd (last (sent (overlayWindows (updateOverlays screenA (whenReady screenA)) ! 0)))) = False \<and>
   visible (overlayWindows (whenReady screenA) ! 0) \<and>
   visible (overlayWindows (updateOverlays screenA (whenReady screenA)) ! 0) \<and>
   visible (overlayWindows
     (run [TimerTick screenB, ClickEnableBlur False screenB, TimerTick screenA]
       (whenReady screenA)) ! 0)"
proof -
  have h: "(0::nat) < length (overlayWindows (whenReady screenA))"
    by (simp add: whenReady_windows screenA_def)
  have m: "mouseScreenIndex (getAllDisplays screenA) (getCursorScreenPoint screenA) = 0"
    by (simp add: screenA_def mouseScreenIndex_def monitorA_def monitorB_def cursorOnA_def
        inBounds_def)
  have f: "fst (snd (last (sent (overlayWindows (updateOverlays screenA (whenReady screenA)) ! 0)))) =
      False"
    using h m by (simp add: updateOverlays_nth updateOverlay_sent)
  have v: "visible (overlayWindows (whenReady screenA) ! 0)"
    by (simp add: whenReady_windows screenA_def createOverlayWindow_def setAlwaysOnTop_def
        loadFile_def setIgnoreMouseEvents_def newBrowserWindow_def)
  note t = C9_tick_never_hides [OF h, of screenA]
  from t f v have a: "visible (overlayWindows (updateOverlays screenA (whenReady screenA)) ! 0)"
    by blast
  from t v have b: "visible (overlayWindows
     (run [TimerTick screenB, ClickEnableBlur False screenB, TimerTick screenA]
       (whenReady screenA)) ! 0)"
    by blast
  from h f v a b show ?thesis by blast
qed

text \<open>
  C10. The program starts with blur enabled and opacity 0.7, and in every state it reaches
  the opacity is one of 0.3, 0.5, 0.7 and 0.9.
\<close>

theorem C10_initial_state_and_opacity_levels:
  "blurEnabled initial = True \<and> blurOpacity initial = 7 / 10 \<and>
   (\<forall>scr. blurEnabled (whenReady scr) = True \<and> blurOpacity (whenReady scr) = 7 / 10) \<and>
   (\<forall>scr es. blurOpacity (run es (whenReady scr)) \<in> {3 / 10, 5 / 10, 7 / 10, 9 / 10})"
proof -
  have a: "blurEnabled initial = True \<and> blurOpacity initial = 7 / 10"
    by (simp add: initial_def)
  have b: "blurEnabled (whenReady scr) = True \<and> blurOpacity (whenReady scr) = 7 / 10" for scr
    by (simp add: whenReady_frame)
  have "blurOpacity (whenReady scr) \<in> opacityLevels" for scr
    by (simp add: whenReady_frame opacityLevels_def)
  then have "blurOpacity (run es (whenReady scr)) \<in> opacityLevels" for scr es
    by (rule run_opacity_levels)
  then have c: "blurOpacity (run es (whenReady scr)) \<in> {3 / 10, 5 / 10, 7 / 10, 9 / 10}"
    for scr es
    unfolding opacityLevels_def .
  from a b c show ?thesis by blast
qed

end
